theory Spec2Isabelle
  imports Complex_Main "HOL-Library.AList"
begin

section \<open>The PitLink chunk delivery simulator of web/app.js\<close>

text \<open>
  The embedding covers \<open>randomFrom\<close>, \<open>weightedStatus\<close> and \<open>generateRun\<close>.

  Conventions of the embedding:
  \<^item> a JavaScript number is a \<open>real\<close>: rounding and +Infinity are outside the model;
    the two other values the code can produce from finite inputs are constructors of the
    type \<open>number\<close>: \<open>NegInfinity\<close> for \<open>Math.max()\<close> of no arguments and \<open>NaN\<close>
    for \<open>Math.max\<close> of a string that is no numeral;
  \<^item> \<open>Math.random()\<close> is a sequence \<open>rnd :: nat \<Rightarrow> real\<close> of draws together with the
    number of calls made so far; its contract \<open>0 \<le> r < 1\<close> is a hypothesis wherever a
    property depends on it;
  \<^item> a value that may be \<open>undefined\<close> is an \<open>option\<close>, \<open>None\<close> being \<open>undefined\<close>;
  \<^item> an object used as a dictionary (\<open>priorityConfig\<close>, \<open>laneDurations\<close>) is the
    association list of its own properties; both are plain objects, so a read of a key
    that is not an own property finds the member of that name inherited from
    \<open>Object.prototype\<close>, if there is one (\<open>getProperty\<close>, \<open>setProperty\<close>);
  \<^item> a string is a list of bytes, the two non-ASCII characters of the source in UTF-8.
\<close>

subsection \<open>Data\<close>

datatype status = Delivered | Recovered | Retransmit | Dropped

datatype number = NegInfinity | Num real | NaN

text \<open>
  The result of the read \<open>obj[key]\<close> on a plain object: the value of an own property, a
  member inherited from \<open>Object.prototype\<close> (a function, or the prototype itself for
  \<open>__proto__\<close>), or \<open>undefined\<close>.
\<close>

datatype 'a property = Own 'a | Inherited | Undefined

text \<open>
  A value held by \<open>laneDurations\<close>: a number of milliseconds, or the string that \<open>+\<close>
  makes of an inherited member and a number. The characters of that string (the source
  text of the member followed by the digits of the number) are not modelled: only
  \<open>Math.max\<close> reads it, and turns it into \<open>NaN\<close>.
\<close>

datatype lane_value = Millis real | Text

record config =
  label :: "string option"
  baseMs :: "real option"
  pathOptions :: "string list option"
  fec :: "string option"

record scenario =
  priorityConfig :: "(string \<times> config) list"
  buckets :: "(string \<times> int) list"

record run_stats =
  delivered :: nat
  recovered :: nat
  retransmit :: nat
  dropped :: nat
  total :: nat

record chunk =
  chunk_id :: nat
  priority :: string
  status :: status
  height :: real
  path :: "string option"
  transferMs :: real
  chunk_fec :: string
  chunk_note :: string
  chunk_label :: string

record run =
  chunks :: "chunk list"
  stats :: run_stats
  duration :: number
  lossRate :: real

text \<open>The variables of \<open>generateRun\<close> that its loops update, and the calls of \<open>Math.random\<close>.\<close>

record vars =
  v_stats :: run_stats
  v_chunks :: "chunk list"
  v_chunkIndex :: nat
  v_laneDurations :: "(string \<times> lane_value) list"
  v_calls :: nat

subsection \<open>Strings\<close>

definition arrow :: string where
  "arrow = [CHR 0xE2, CHR 0x86, CHR 0x92]"

definition emdash :: string where
  "emdash = [CHR 0xE2, CHR 0x80, CHR 0x94]"

fun STATUS_LABELS :: "status \<Rightarrow> string" where
  "STATUS_LABELS Delivered = ''Delivered cleanly''"
| "STATUS_LABELS Recovered = ''Recovered via Reed-Solomon FEC''"
| "STATUS_LABELS Retransmit = ''Retransmitted over QUIC''"
| "STATUS_LABELS Dropped = ''Dropped '' @ emdash @ '' manual follow-up''"

text \<open>A value inside a template literal: \<open>undefined\<close> prints as its name.\<close>

fun tmpl :: "string option \<Rightarrow> string" where
  "tmpl None = ''undefined''"
| "tmpl (Some s) = s"

text \<open>
  \<open>x || d\<close> for \<open>x\<close> a string or \<open>undefined\<close>: the empty string is falsy as well.
  The last argument carries a truthy \<open>x\<close> into the type of \<open>d\<close>.
\<close>

fun or_else :: "string option \<Rightarrow> 'a \<Rightarrow> (string \<Rightarrow> 'a) \<Rightarrow> 'a" where
  "or_else None d f = d"
| "or_else (Some s) d f = (if s = [] then d else f s)"

subsection \<open>Property reads and writes on plain objects\<close>

text \<open>The properties of \<open>Object.prototype\<close>, which every plain object inherits.\<close>

definition inheritedMembers :: "string list" where
  "inheritedMembers =
     [''constructor'', ''__defineGetter__'', ''__defineSetter__'', ''hasOwnProperty'',
      ''__lookupGetter__'', ''__lookupSetter__'', ''isPrototypeOf'', ''propertyIsEnumerable'',
      ''toString'', ''valueOf'', ''__proto__'', ''toLocaleString'']"

definition getProperty :: "(string \<times> 'a) list \<Rightarrow> string \<Rightarrow> 'a property" where
  "getProperty obj key =
     (case map_of obj key of
        Some v \<Rightarrow> Own v
      | None \<Rightarrow> if key \<in> set inheritedMembers then Inherited else Undefined)"

text \<open>
  \<open>obj[key] = v\<close> for a number or a string \<open>v\<close>: the inherited setter of \<open>__proto__\<close>
  ignores such a value; every other key becomes or stays an own property.
\<close>

definition setProperty :: "string \<Rightarrow> 'a \<Rightarrow> (string \<times> 'a) list \<Rightarrow> (string \<times> 'a) list" where
  "setProperty key v obj =
     (if key = ''__proto__'' \<and> map_of obj key = None then obj else AList.update key v obj)"

subsection \<open>Functions\<close>

text \<open>\<open>array[Math.floor(r * array.length)]\<close>; a read out of range is \<open>undefined\<close>.\<close>

definition randomFrom :: "'a list \<Rightarrow> real \<Rightarrow> 'a option" where
  "randomFrom array r =
     (let i = \<lfloor>r * real (length array)\<rfloor>
      in if 0 \<le> i \<and> i < int (length array) then Some (array ! nat i) else None)"

definition weightedStatus :: "string \<Rightarrow> real \<Rightarrow> status" where
  "weightedStatus p roll =
     (if p = ''P0'' then
        (if roll < 0.08 then Recovered
         else if roll < 0.11 then Retransmit
         else Delivered)
      else if p = ''P1'' then
        (if roll < 0.1 then Recovered
         else if roll < 0.16 then Retransmit
         else if roll < 0.18 then Dropped
         else Delivered)
      else
        (if roll < 0.12 then Recovered
         else if roll < 0.22 then Retransmit
         else if roll < 0.28 then Dropped
         else Delivered))"

text \<open>\<open>pathOptions.find((option) => option !== basePath) || basePath\<close>\<close>

definition alternatePath :: "string list \<Rightarrow> string option \<Rightarrow> string option" where
  "alternatePath opts basePath =
     or_else (find (\<lambda>option. Some option \<noteq> basePath) opts) basePath Some"

text \<open>
  An inherited member read as a lane configuration: a function, or \<open>Object.prototype\<close>,
  has none of the four fields.
\<close>

definition noFields :: config where
  "noFields = \<lparr>label = None, baseMs = None, pathOptions = None, fec = None\<rparr>"

text \<open>
  The four constants at the head of the \<open>forEach\<close> callback. The first is
  \<open>priorityConfig[priority] || priorityConfig.P0\<close>: an entry and an inherited member are
  both truthy, so only a key that is neither falls back to the entry of P0.
\<close>

definition laneConfig :: "(string \<times> config) list \<Rightarrow> string \<Rightarrow> config option" where
  "laneConfig pc p =
     (case getProperty pc p of
        Own c \<Rightarrow> Some c
      | Inherited \<Rightarrow> Some noFields
      | Undefined \<Rightarrow>
          (case getProperty pc ''P0'' of
             Own c \<Rightarrow> Some c
           | Inherited \<Rightarrow> Some noFields
           | Undefined \<Rightarrow> None))"

definition laneBaseMs :: "config option \<Rightarrow> real" where
  "laneBaseMs cfg =
     (case cfg of None \<Rightarrow> 120
      | Some c \<Rightarrow> (case baseMs c of Some b \<Rightarrow> b | None \<Rightarrow> 120))"

definition lanePathOptions :: "config option \<Rightarrow> string list" where
  "lanePathOptions cfg =
     (case cfg of None \<Rightarrow> [''Primary link'']
      | Some c \<Rightarrow>
          (case pathOptions c of
             Some ps \<Rightarrow> if length ps > 0 then ps else [''Primary link'']
           | None \<Rightarrow> [''Primary link'']))"

definition laneFec :: "config option \<Rightarrow> string" where
  "laneFec cfg =
     or_else (case cfg of None \<Rightarrow> None | Some c \<Rightarrow> fec c) ''RS(12,9)'' (\<lambda>s. s)"

definition laneLabel :: "config option \<Rightarrow> string \<Rightarrow> string" where
  "laneLabel cfg p =
     or_else (case cfg of None \<Rightarrow> None | Some c \<Rightarrow> label c) p (\<lambda>s. s)"

text \<open>
  \<open>(laneDurations[priority] || 0) + effectiveMs\<close>: a number adds up (0 and
  \<open>undefined\<close> count as 0); a string and an inherited member are truthy and no
  numbers, so \<open>+\<close> concatenates.
\<close>

fun addMs :: "lane_value property \<Rightarrow> real \<Rightarrow> lane_value" where
  "addMs (Own (Millis d)) ms = Millis (d + ms)"
| "addMs (Own Text) ms = Text"
| "addMs Inherited ms = Text"
| "addMs Undefined ms = Millis (0 + ms)"

text \<open>One pass of the \<open>for\<close> loop: four draws, one chunk.\<close>

definition loopBody ::
  "(nat \<Rightarrow> real) \<Rightarrow> string \<Rightarrow> config option \<Rightarrow> real \<Rightarrow> string list \<Rightarrow> string \<Rightarrow> vars \<Rightarrow> vars"
where
  "loopBody rnd p cfg base opts fecCode s =
     (let chunkIndex = v_chunkIndex s + 1;
          st = weightedStatus p (rnd (v_calls s));
          basePath = randomFrom opts (rnd (v_calls s + 1));
          note0 = STATUS_LABELS st @ '' via '' @ tmpl basePath;
          effectiveMs0 = base + rnd (v_calls s + 2) * base * 0.9;
          sts = v_stats s;
          (sts', note, pth, effectiveMs) =
            (if st = Recovered then
               (sts\<lparr>recovered := recovered sts + 1\<rparr>,
                STATUS_LABELS st @ '' ('' @ fecCode @ '' on '' @ tmpl basePath @ '')'',
                basePath, effectiveMs0)
             else if st = Retransmit then
               (let alternate = alternatePath opts basePath
                in (sts\<lparr>retransmit := retransmit sts + 1\<rparr>,
                    STATUS_LABELS st @ '' '' @ emdash @ '' switched to '' @ tmpl alternate,
                    Some (tmpl basePath @ '' '' @ arrow @ '' '' @ tmpl alternate),
                    effectiveMs0 + base * 0.6))
             else if st = Dropped then
               (sts\<lparr>dropped := dropped sts + 1\<rparr>,
                STATUS_LABELS st @ '' ('' @ fecCode @ '' exhausted)'',
                basePath, effectiveMs0 + base)
             else
               (sts\<lparr>delivered := delivered sts + 1\<rparr>, note0, basePath, effectiveMs0));
          lanes = v_laneDurations s;
          lanes' = setProperty p (addMs (getProperty lanes p) effectiveMs) lanes
      in \<lparr>v_stats = sts',
          v_chunks = v_chunks s @
            [\<lparr>chunk_id = chunkIndex, priority = p, status = st,
              height = 45 + rnd (v_calls s + 3) * 55, path = pth,
              transferMs = effectiveMs, chunk_fec = fecCode, chunk_note = note,
              chunk_label = laneLabel cfg p\<rparr>],
          v_chunkIndex = chunkIndex,
          v_laneDurations = lanes',
          v_calls = v_calls s + 4\<rparr>)"

text \<open>The \<open>forEach\<close> callback: \<open>for (let i = 0; i < count; i += 1)\<close> runs \<open>nat count\<close> times.\<close>

definition bucketStep ::
  "(nat \<Rightarrow> real) \<Rightarrow> (string \<times> config) list \<Rightarrow> string \<times> int \<Rightarrow> vars \<Rightarrow> vars"
where
  "bucketStep rnd pc b s =
     (let p = fst b; count = snd b;
          cfg = laneConfig pc p;
          base = laneBaseMs cfg;
          opts = lanePathOptions cfg;
          fecCode = laneFec cfg
      in ((loopBody rnd p cfg base opts fecCode) ^^ nat count) s)"

text \<open>
  \<open>Math.max(...xs)\<close>: with no argument the result is \<open>-Infinity\<close>, and with an
  argument that is no number (here, a string that is no numeral) it is \<open>NaN\<close>.
\<close>

fun Math_max :: "lane_value list \<Rightarrow> number" where
  "Math_max [] = NegInfinity"
| "Math_max (Text # xs) = NaN"
| "Math_max (Millis x # xs) =
     (case Math_max xs of NegInfinity \<Rightarrow> Num x | Num m \<Rightarrow> Num (max x m) | NaN \<Rightarrow> NaN)"

text \<open>Division by a positive number.\<close>

fun divide_number :: "number \<Rightarrow> real \<Rightarrow> number" where
  "divide_number NegInfinity d = NegInfinity"
| "divide_number (Num x) d = Num (x / d)"
| "divide_number NaN d = NaN"

definition initialVars :: "(string \<times> config) list \<Rightarrow> vars" where
  "initialVars pc =
     \<lparr>v_stats = \<lparr>delivered = 0, recovered = 0, retransmit = 0, dropped = 0, total = 0\<rparr>,
      v_chunks = [],
      v_chunkIndex = 0,
      v_laneDurations = fold (\<lambda>key acc. setProperty key (Millis 0) acc) (map fst pc) [],
      v_calls = 0\<rparr>"

definition generateRun :: "scenario \<Rightarrow> (nat \<Rightarrow> real) \<Rightarrow> run" where
  "generateRun sc rnd =
     (let s = fold (bucketStep rnd (priorityConfig sc)) (buckets sc)
                (initialVars (priorityConfig sc));
          sts = (v_stats s)\<lparr>total := length (v_chunks s)\<rparr>;
          dur = divide_number (Math_max (map snd (v_laneDurations s))) 1000;
          loss = (if total sts > 0
                  then real (recovered sts + retransmit sts + dropped sts) / real (total sts)
                  else 0)
      in \<lparr>chunks = v_chunks s, stats = sts, duration = dur, lossRate = loss\<rparr>)"

subsection \<open>Notions used to state the properties\<close>

text \<open>
  The loop body with the lane's four constants filled in, the variables after the last
  bucket, the lane of every requested chunk in bucket order, and the number of chunks of
  one outcome.
\<close>

definition laneStep :: "(nat \<Rightarrow> real) \<Rightarrow> (string \<times> config) list \<Rightarrow> string \<Rightarrow> vars \<Rightarrow> vars" where
  "laneStep rnd pc p =
     loopBody rnd p (laneConfig pc p) (laneBaseMs (laneConfig pc p))
       (lanePathOptions (laneConfig pc p)) (laneFec (laneConfig pc p))"

definition finalVars :: "scenario \<Rightarrow> (nat \<Rightarrow> real) \<Rightarrow> vars" where
  "finalVars sc rnd =
     fold (bucketStep rnd (priorityConfig sc)) (buckets sc) (initialVars (priorityConfig sc))"

definition lanesOf :: "(string \<times> int) list \<Rightarrow> string list" where
  "lanesOf bs = concat (map (\<lambda>b. replicate (nat (snd b)) (fst b)) bs)"

definition tally :: "status \<Rightarrow> chunk list \<Rightarrow> nat" where
  "tally st cs = length (filter (\<lambda>c. status c = st) cs)"

text \<open>The bookkeeping that every pass of the loop keeps.\<close>

definition counted :: "vars \<Rightarrow> bool" where
  "counted s \<longleftrightarrow>
     v_chunkIndex s = length (v_chunks s) \<and> v_calls s = 4 * length (v_chunks s)
     \<and> map chunk_id (v_chunks s) = [1..<Suc (length (v_chunks s))]
     \<and> delivered (v_stats s) = tally Delivered (v_chunks s)
     \<and> recovered (v_stats s) = tally Recovered (v_chunks s)
     \<and> retransmit (v_stats s) = tally Retransmit (v_chunks s)
     \<and> dropped (v_stats s) = tally Dropped (v_chunks s)"

subsection \<open>Concrete runs\<close>

text \<open>
  The run of the specification's literal scenario: one P0 chunk, base latency 48, paths
  A and B; the outcome draw is 0.5, the path draw 0, the jitter draw 0 and the draw for
  the display height is \<open>h\<close>.
\<close>

definition literalScenario :: scenario where
  "literalScenario =
     \<lparr>priorityConfig =
        [(''P0'', \<lparr>label = None, baseMs = Some 48, pathOptions = Some [''A'', ''B''],
                  fec = Some ''RS(12,9)''\<rparr>)],
      buckets = [(''P0'', 1)]\<rparr>"

definition literalDraws :: "real \<Rightarrow> nat \<Rightarrow> real" where
  "literalDraws h n = (if n = 0 then 0.5 else if n = 3 then h else 0)"

text \<open>A lane with a single candidate path, and draws that make its chunk a retransmit.\<close>

definition singlePathScenario :: scenario where
  "singlePathScenario =
     \<lparr>priorityConfig =
        [(''P0'', \<lparr>label = None, baseMs = Some 48, pathOptions = Some [''Uplink''],
                  fec = Some ''RS(12,9)''\<rparr>)],
      buckets = [(''P0'', 1)]\<rparr>"

definition retransmitDraws :: "nat \<Rightarrow> real" where
  "retransmitDraws n = 0.09"




text \<open>A lane whose base latency is negative, with every draw at one half.\<close>

definition negativeBaseScenario :: scenario where
  "negativeBaseScenario =
     \<lparr>priorityConfig =
        [(''P0'', \<lparr>label = None, baseMs = Some (- 10), pathOptions = Some [''A'', ''B''],
                  fec = Some ''RS(12,9)''\<rparr>)],
      buckets = [(''P0'', 1)]\<rparr>"

definition halfDraws :: "nat \<Rightarrow> real" where
  "halfDraws n = 0.5"

text \<open>No lane and no bucket.\<close>

definition emptyScenario :: scenario where
  "emptyScenario = \<lparr>priorityConfig = [], buckets = []\<rparr>"

subsection \<open>The specification's fallback path\<close>

text \<open>
  The Path Selector's \<open>chooseFallback\<close> in the words of the specification: the first
  entry of the list that is not the primary, and the primary itself when every entry is
  the primary. It is compared with \<open>alternatePath\<close>, which is the code.
\<close>

definition chooseFallback :: "string list \<Rightarrow> string \<Rightarrow> string" where
  "chooseFallback paths primary =
     (case find (\<lambda>entry. entry \<noteq> primary) paths of Some entry \<Rightarrow> entry | None \<Rightarrow> primary)"

subsection \<open>Lane totals\<close>

text \<open>
  The cumulative transfer time of the chunks of one priority, the priorities that have a
  lane (the configured ones and those of the emitted chunks), and the statement that
  \<open>laneDurations\<close> holds exactly these totals.
\<close>

definition laneTotal :: "chunk list \<Rightarrow> string \<Rightarrow> real" where
  "laneTotal cs p = sum_list (map transferMs (filter (\<lambda>c. priority c = p) cs))"

definition laneNames :: "(string \<times> config) list \<Rightarrow> chunk list \<Rightarrow> string set" where
  "laneNames pc cs = fst ` set pc \<union> priority ` set cs"

definition lanesAccount :: "(string \<times> config) list \<Rightarrow> vars \<Rightarrow> bool" where
  "lanesAccount pc s \<longleftrightarrow>
     distinct (map fst (v_laneDurations s))
     \<and> map_of (v_laneDurations s) =
         (\<lambda>p. if p \<in> laneNames pc (v_chunks s)
              then Some (Millis (laneTotal (v_chunks s) p)) else None)"

text \<open>
  The number held by a lane, and the scenarios none of whose priorities, configured or
  requested, is named like an inherited member.
\<close>

fun millis :: "lane_value \<Rightarrow> real" where
  "millis (Millis d) = d"
| "millis Text = 0"

definition plainLanes :: "scenario \<Rightarrow> bool" where
  "plainLanes sc \<longleftrightarrow>
     set (map fst (priorityConfig sc) @ map fst (buckets sc)) \<inter> set inheritedMembers = {}"

section \<open>The loop, one pass at a time\<close>

lemmas run_defs =
  generateRun_def initialVars_def bucketStep_def laneConfig_def laneBaseMs_def
  lanePathOptions_def laneFec_def laneLabel_def loopBody_def Let_def weightedStatus_def
  randomFrom_def alternatePath_def getProperty_def setProperty_def inheritedMembers_def
  noFields_def

lemma bucketStep_laneStep: "bucketStep rnd pc b = (laneStep rnd pc (fst b)) ^^ nat (snd b)"
  by (rule ext) (simp add: bucketStep_def laneStep_def Let_def)

lemma loopBody_chunks:
  "\<exists>c. v_chunks (loopBody rnd p cfg base opts fecCode s) = v_chunks s @ [c]
     \<and> chunk_id c = v_chunkIndex s + 1 \<and> priority c = p
     \<and> status c = weightedStatus p (rnd (v_calls s))
     \<and> transferMs c = base + rnd (v_calls s + 2) * base * 0.9
          + (case status c of Retransmit \<Rightarrow> base * 0.6 | Dropped \<Rightarrow> base | _ \<Rightarrow> 0)
     \<and> path c = (if status c = Retransmit
                 then Some (tmpl (randomFrom opts (rnd (v_calls s + 1))) @ '' '' @ arrow @ '' ''
                        @ tmpl (alternatePath opts (randomFrom opts (rnd (v_calls s + 1)))))
                 else randomFrom opts (rnd (v_calls s + 1)))
     \<and> height c = 45 + rnd (v_calls s + 3) * 55
     \<and> chunk_fec c = fecCode \<and> chunk_label c = laneLabel cfg p"
  by (cases "weightedStatus p (rnd (v_calls s))")
     (simp_all add: loopBody_def Let_def)

lemma loopBody_counters:
  "v_calls (loopBody rnd p cfg base opts fecCode s) = v_calls s + 4"
  "v_chunkIndex (loopBody rnd p cfg base opts fecCode s) = v_chunkIndex s + 1"
  by (simp_all add: loopBody_def Let_def split: prod.splits)

lemma loopBody_stats:
  "delivered (v_stats (loopBody rnd p cfg base opts fecCode s)) =
     delivered (v_stats s) + (if weightedStatus p (rnd (v_calls s)) = Delivered then 1 else 0)"
  "recovered (v_stats (loopBody rnd p cfg base opts fecCode s)) =
     recovered (v_stats s) + (if weightedStatus p (rnd (v_calls s)) = Recovered then 1 else 0)"
  "retransmit (v_stats (loopBody rnd p cfg base opts fecCode s)) =
     retransmit (v_stats s) + (if weightedStatus p (rnd (v_calls s)) = Retransmit then 1 else 0)"
  "dropped (v_stats (loopBody rnd p cfg base opts fecCode s)) =
     dropped (v_stats s) + (if weightedStatus p (rnd (v_calls s)) = Dropped then 1 else 0)"
  by (cases "weightedStatus p (rnd (v_calls s))"; simp add: loopBody_def Let_def)+

lemma loopBody_lanes:
  "\<exists>c. v_chunks (loopBody rnd p cfg base opts fecCode s) = v_chunks s @ [c] \<and> priority c = p
     \<and> v_laneDurations (loopBody rnd p cfg base opts fecCode s) =
         setProperty p (addMs (getProperty (v_laneDurations s) p) (transferMs c))
           (v_laneDurations s)"
  by (cases "weightedStatus p (rnd (v_calls s))")
     (simp_all add: loopBody_def Let_def)

section \<open>Invariants of a run\<close>

lemma funpow_invariant:
  assumes "I s" and "\<And>s. I s \<Longrightarrow> I (f s)"
  shows "I ((f ^^ n) s)"
  using assms by (induction n) simp_all

lemma fold_bucketStep_invariant:
  assumes "I s" and "\<And>p s. I s \<Longrightarrow> I (laneStep rnd pc p s)"
  shows "I (fold (bucketStep rnd pc) bs s)"
  using assms(1)
proof (induction bs arbitrary: s)
  case Nil
  then show ?case by simp
next
  case (Cons b bs)
  have "I (bucketStep rnd pc b s)"
    unfolding bucketStep_laneStep using Cons.prems assms(2) by (rule funpow_invariant)
  then show ?case using Cons.IH by simp
qed

lemma fold_bucketStep_invariant_on:
  assumes "I s" and "\<And>p s. p \<in> fst ` set bs \<Longrightarrow> I s \<Longrightarrow> I (laneStep rnd pc p s)"
  shows "I (fold (bucketStep rnd pc) bs s)"
  using assms
proof (induction bs arbitrary: s)
  case Nil
  then show ?case by simp
next
  case (Cons b bs)
  have "I (bucketStep rnd pc b s)"
    unfolding bucketStep_laneStep using Cons.prems(1)
    by (rule funpow_invariant) (simp add: Cons.prems(2))
  then show ?case using Cons.IH Cons.prems(2) by simp
qed

lemma generateRun_fields:
  "chunks (generateRun sc rnd) = v_chunks (finalVars sc rnd)"
  "stats (generateRun sc rnd) = (v_stats (finalVars sc rnd))\<lparr>total := length (v_chunks (finalVars sc rnd))\<rparr>"
  "duration (generateRun sc rnd) =
     divide_number (Math_max (map snd (v_laneDurations (finalVars sc rnd)))) 1000"
  by (simp_all add: generateRun_def finalVars_def Let_def)

lemma counted_initial: "counted (initialVars pc)"
  by (simp add: counted_def initialVars_def tally_def)

lemma counted_laneStep:
  assumes "counted s"
  shows "counted (laneStep rnd pc p s)"
proof -
  let ?cfg = "laneConfig pc p"
  obtain c where c: "v_chunks (laneStep rnd pc p s) = v_chunks s @ [c]"
      "chunk_id c = v_chunkIndex s + 1" "status c = weightedStatus p (rnd (v_calls s))"
    using loopBody_chunks [of rnd p ?cfg "laneBaseMs ?cfg" "lanePathOptions ?cfg" "laneFec ?cfg" s]
    unfolding laneStep_def by blast
  show ?thesis
    using assms c
    by (simp add: counted_def laneStep_def loopBody_counters loopBody_stats tally_def)
qed

lemma counted_final: "counted (finalVars sc rnd)"
  unfolding finalVars_def
  by (rule fold_bucketStep_invariant [where I = counted]) (simp_all add: counted_initial counted_laneStep)

text \<open>
  A property of the chunk at position \<open>k\<close> holds in the finished run when every pass
  of the loop establishes it for the chunk it appends.
\<close>

lemma chunks_indexed:
  assumes step: "\<And>p s c. counted s \<Longrightarrow> v_chunks (laneStep rnd (priorityConfig sc) p s) = v_chunks s @ [c]
                   \<Longrightarrow> Q (length (v_chunks s)) c"
    and k: "k < length (chunks (generateRun sc rnd))"
  shows "Q k (chunks (generateRun sc rnd) ! k)"
proof -
  let ?I = "\<lambda>s. counted s \<and> (\<forall>k<length (v_chunks s). Q k (v_chunks s ! k))"
  have "?I (finalVars sc rnd)"
    unfolding finalVars_def
  proof (rule fold_bucketStep_invariant [where I = ?I])
    show "?I (initialVars (priorityConfig sc))"
      by (simp add: counted_initial) (simp add: initialVars_def)
  next
    fix p s
    assume I: "?I s"
    obtain c where c: "v_chunks (laneStep rnd (priorityConfig sc) p s) = v_chunks s @ [c]"
      using loopBody_chunks unfolding laneStep_def by blast
    have "Q (length (v_chunks s)) c" using step I c by blast
    with I c show "?I (laneStep rnd (priorityConfig sc) p s)"
      by (auto simp: counted_laneStep nth_append less_Suc_eq)
  qed
  with k show ?thesis by (simp add: generateRun_fields)
qed

text \<open>
  Every field of the \<open>k\<close>-th chunk is a function of its lane's configuration and of
  the draws \<open>4k\<close> to \<open>4k + 3\<close> alone.
\<close>

lemma run_chunk_at:
  assumes k: "k < length (chunks (generateRun sc rnd))"
  defines "c \<equiv> chunks (generateRun sc rnd) ! k"
  defines "cfg \<equiv> laneConfig (priorityConfig sc) (priority c)"
  defines "basePath \<equiv> randomFrom (lanePathOptions cfg) (rnd (4 * k + 1))"
  shows "chunk_id c = k + 1"
    and "status c = weightedStatus (priority c) (rnd (4 * k))"
    and "transferMs c = laneBaseMs cfg + rnd (4 * k + 2) * laneBaseMs cfg * 0.9
          + (case status c of Retransmit \<Rightarrow> laneBaseMs cfg * 0.6 | Dropped \<Rightarrow> laneBaseMs cfg | _ \<Rightarrow> 0)"
    and "path c = (if status c = Retransmit
                 then Some (tmpl basePath @ '' '' @ arrow @ '' '' @ tmpl (alternatePath (lanePathOptions cfg) basePath))
                 else basePath)"
    and "height c = 45 + rnd (4 * k + 3) * 55"
    and "chunk_fec c = laneFec cfg"
    and "chunk_label c = laneLabel cfg (priority c)"
proof -
  let ?Q = "\<lambda>k c. chunk_id c = k + 1
     \<and> status c = weightedStatus (priority c) (rnd (4 * k))
     \<and> transferMs c = laneBaseMs (laneConfig (priorityConfig sc) (priority c))
          + rnd (4 * k + 2) * laneBaseMs (laneConfig (priorityConfig sc) (priority c)) * 0.9
          + (case status c of Retransmit \<Rightarrow> laneBaseMs (laneConfig (priorityConfig sc) (priority c)) * 0.6
             | Dropped \<Rightarrow> laneBaseMs (laneConfig (priorityConfig sc) (priority c)) | _ \<Rightarrow> 0)
     \<and> path c = (if status c = Retransmit
                 then Some (tmpl (randomFrom (lanePathOptions (laneConfig (priorityConfig sc) (priority c))) (rnd (4 * k + 1))) @ '' '' @ arrow @ '' ''
                   @ tmpl (alternatePath (lanePathOptions (laneConfig (priorityConfig sc) (priority c)))
                        (randomFrom (lanePathOptions (laneConfig (priorityConfig sc) (priority c))) (rnd (4 * k + 1)))))
                 else randomFrom (lanePathOptions (laneConfig (priorityConfig sc) (priority c))) (rnd (4 * k + 1)))
     \<and> height c = 45 + rnd (4 * k + 3) * 55
     \<and> chunk_fec c = laneFec (laneConfig (priorityConfig sc) (priority c))
     \<and> chunk_label c = laneLabel (laneConfig (priorityConfig sc) (priority c)) (priority c)"
  have "?Q k (chunks (generateRun sc rnd) ! k)"
  proof (rule chunks_indexed [where Q = ?Q, OF _ k])
    fix p s c'
    assume s: "counted s"
      and c': "v_chunks (laneStep rnd (priorityConfig sc) p s) = v_chunks s @ [c']"
    let ?cfg = "laneConfig (priorityConfig sc) p"
    from loopBody_chunks [of rnd p ?cfg "laneBaseMs ?cfg" "lanePathOptions ?cfg" "laneFec ?cfg" s] c'
    show "?Q (length (v_chunks s)) c'"
      using s by (auto simp: laneStep_def counted_def)
  qed
  then show "chunk_id c = k + 1"
    and "status c = weightedStatus (priority c) (rnd (4 * k))"
    and "transferMs c = laneBaseMs cfg + rnd (4 * k + 2) * laneBaseMs cfg * 0.9
          + (case status c of Retransmit \<Rightarrow> laneBaseMs cfg * 0.6 | Dropped \<Rightarrow> laneBaseMs cfg | _ \<Rightarrow> 0)"
    and "path c = (if status c = Retransmit
                 then Some (tmpl basePath @ '' '' @ arrow @ '' '' @ tmpl (alternatePath (lanePathOptions cfg) basePath))
                 else basePath)"
    and "height c = 45 + rnd (4 * k + 3) * 55"
    and "chunk_fec c = laneFec cfg"
    and "chunk_label c = laneLabel cfg (priority c)"
    unfolding c_def cfg_def basePath_def by simp_all
qed

lemma literal_run:
  "chunks (generateRun literalScenario (literalDraws h)) =
     [\<lparr>chunk_id = 1, priority = ''P0'', status = Delivered, height = 45 + h * 55,
       path = Some ''A'', transferMs = 48, chunk_fec = ''RS(12,9)'',
       chunk_note = ''Delivered cleanly via A'', chunk_label = ''P0''\<rparr>]"
  by (simp add: run_defs literalScenario_def literalDraws_def)

lemma singlePath_run:
  "chunks (generateRun singlePathScenario retransmitDraws) =
     [\<lparr>chunk_id = 1, priority = ''P0'', status = Retransmit, height = 45 + 0.09 * 55,
       path = Some (''Uplink '' @ arrow @ '' Uplink''),
       transferMs = 48 + 0.09 * 48 * 0.9 + 48 * 0.6, chunk_fec = ''RS(12,9)'',
       chunk_note = ''Retransmitted over QUIC '' @ emdash @ '' switched to Uplink'',
       chunk_label = ''P0''\<rparr>]"
  by (simp add: run_defs singlePathScenario_def retransmitDraws_def)




lemma negativeBase_run:
  "chunks (generateRun negativeBaseScenario halfDraws) =
     [\<lparr>chunk_id = 1, priority = ''P0'', status = Delivered, height = 72.5,
       path = Some ''B'', transferMs = - 14.5, chunk_fec = ''RS(12,9)'',
       chunk_note = ''Delivered cleanly via B'', chunk_label = ''P0''\<rparr>]"
  by (simp add: run_defs negativeBaseScenario_def halfDraws_def)

lemma tally_sum:
  "tally Delivered cs + tally Recovered cs + tally Retransmit cs + tally Dropped cs = length cs"
proof (induction cs)
  case Nil
  then show ?case by (simp add: tally_def)
next
  case (Cons c cs)
  then show ?case by (cases "status c") (simp_all add: tally_def)
qed

lemma lanes_funpow:
  "map priority (v_chunks ((laneStep rnd pc p ^^ n) s)) = map priority (v_chunks s) @ replicate n p"
proof (induction n)
  case 0
  then show ?case by simp
next
  case (Suc n)
  obtain c where "v_chunks (laneStep rnd pc p ((laneStep rnd pc p ^^ n) s))
      = v_chunks ((laneStep rnd pc p ^^ n) s) @ [c]" "priority c = p"
    using loopBody_chunks unfolding laneStep_def by blast
  with Suc show ?case by (simp add: replicate_append_same)
qed

lemma lanes_fold:
  "map priority (v_chunks (fold (bucketStep rnd pc) bs s)) = map priority (v_chunks s) @ lanesOf bs"
proof (induction bs arbitrary: s)
  case Nil
  then show ?case by (simp add: lanesOf_def)
next
  case (Cons b bs)
  then show ?case by (simp add: lanesOf_def bucketStep_laneStep lanes_funpow)
qed

lemma weightedStatus_P0: "weightedStatus ''P0'' r \<noteq> Dropped"
  by (simp add: weightedStatus_def)

lemma randomFrom_single:
  assumes "0 \<le> r" "r < 1"
  shows "randomFrom [p] r = Some p"
proof -
  have "\<lfloor>r\<rfloor> = 0" using assms by (simp add: floor_eq_iff)
  then show ?thesis by (simp add: randomFrom_def)
qed

lemma alternatePath_single: "alternatePath [p] (Some p) = Some p"
  by (simp add: alternatePath_def)



lemma laneConfig_cases:
  "laneConfig pc p = None \<or> laneConfig pc p = Some noFields
   \<or> (\<exists>q c. (q, c) \<in> set pc \<and> laneConfig pc p = Some c)"
  by (auto simp: laneConfig_def getProperty_def split: option.splits dest: map_of_SomeD)

lemma laneBaseMs_cases:
  assumes "\<forall>e \<in> set pc. \<forall>b. baseMs (snd e) = Some b \<longrightarrow> P b" and "P 120"
  shows "P (laneBaseMs (laneConfig pc p))"
  using laneConfig_cases [of pc p]
proof (elim disjE exE conjE)
  assume "laneConfig pc p = None"
  with assms(2) show ?thesis by (simp add: laneBaseMs_def)
next
  assume "laneConfig pc p = Some noFields"
  with assms(2) show ?thesis by (simp add: laneBaseMs_def noFields_def)
next
  fix q c
  assume "(q, c) \<in> set pc" and "laneConfig pc p = Some c"
  with assms show ?thesis
    by (cases "baseMs c") (auto simp: laneBaseMs_def)
qed

lemma chunk_transferMs_ge_base:
  assumes k: "k < length (chunks (generateRun sc rnd))"
    and r: "0 \<le> rnd (4 * k + 2)"
    and b: "0 \<le> laneBaseMs (laneConfig (priorityConfig sc) (priority (chunks (generateRun sc rnd) ! k)))"
  shows "laneBaseMs (laneConfig (priorityConfig sc) (priority (chunks (generateRun sc rnd) ! k)))
           \<le> transferMs (chunks (generateRun sc rnd) ! k)"
proof -
  define c where "c = chunks (generateRun sc rnd) ! k"
  define base where "base = laneBaseMs (laneConfig (priorityConfig sc) (priority c))"
  have t: "transferMs c = base + rnd (4 * k + 2) * base * 0.9
      + (case status c of Retransmit \<Rightarrow> base * 0.6 | Dropped \<Rightarrow> base | _ \<Rightarrow> 0)"
    unfolding c_def base_def by (rule run_chunk_at(3) [OF k])
  have "0 \<le> base" using b by (simp add: base_def c_def)
  then have "0 \<le> rnd (4 * k + 2) * base * 0.9" using r by simp
  moreover have "0 \<le> (case status c of Retransmit \<Rightarrow> base * 0.6 | Dropped \<Rightarrow> base | _ \<Rightarrow> 0)"
    using \<open>0 \<le> base\<close> by (cases "status c") simp_all
  ultimately have "base \<le> transferMs c" using t by linarith
  then show ?thesis by (simp add: base_def c_def)
qed

section \<open>Lane durations\<close>

lemma plain_property:
  assumes "p \<notin> set inheritedMembers"
  shows "setProperty p v al = AList.update p v al"
    and "getProperty al p = (case map_of al p of Some x \<Rightarrow> Own x | None \<Rightarrow> Undefined)"
  using assms by (auto simp: setProperty_def getProperty_def inheritedMembers_def)

lemma initial_lanes:
  assumes "distinct (map fst al)" and "set ks \<inter> set inheritedMembers = {}"
  shows "distinct (map fst (fold (\<lambda>key acc. setProperty key (Millis 0) acc) ks al))
   \<and> map_of (fold (\<lambda>key acc. setProperty key (Millis 0) acc) ks al) =
       (\<lambda>p. if p \<in> set ks then Some (Millis 0) else map_of al p)"
  using assms
proof (induction ks arbitrary: al)
  case Nil
  then show ?case by simp
next
  case (Cons k ks)
  from Cons.prems(2) have k: "k \<notin> set inheritedMembers"
    and ks: "set ks \<inter> set inheritedMembers = {}"
    by auto
  have "distinct (map fst (AList.update k (Millis 0) al))"
    using Cons.prems(1) by (simp add: distinct_update)
  from Cons.IH [OF this ks] show ?case
    by (auto simp: update_conv' plain_property(1) [OF k])
qed

lemma lanesAccount_initial:
  assumes "fst ` set pc \<inter> set inheritedMembers = {}"
  shows "lanesAccount pc (initialVars pc)"
  using initial_lanes [of "[]" "map fst pc"] assms
  by (auto simp: lanesAccount_def initialVars_def laneNames_def laneTotal_def)

lemma laneTotal_absent: "p \<notin> priority ` set cs \<Longrightarrow> laneTotal cs p = 0"
proof -
  assume "p \<notin> priority ` set cs"
  then have "filter (\<lambda>c. priority c = p) cs = []"
    by (auto simp: filter_empty_conv)
  then show ?thesis by (simp add: laneTotal_def)
qed

lemma lanesAccount_laneStep:
  assumes "lanesAccount pc s" and p: "p \<notin> set inheritedMembers"
  shows "lanesAccount pc (laneStep rnd pc p s)"
proof -
  let ?L = "v_laneDurations s" and ?cs = "v_chunks s"
  obtain c where c: "v_chunks (laneStep rnd pc p s) = ?cs @ [c]" "priority c = p"
    "v_laneDurations (laneStep rnd pc p s) =
       setProperty p (addMs (getProperty ?L p) (transferMs c)) ?L"
    using loopBody_lanes unfolding laneStep_def by blast
  have old: "addMs (getProperty ?L p) (transferMs c) = Millis (laneTotal ?cs p + transferMs c)"
  proof (cases "p \<in> laneNames pc ?cs")
    case True
    with assms(1) show ?thesis by (simp add: lanesAccount_def plain_property(2) [OF p])
  next
    case False
    then have "laneTotal ?cs p = 0" by (simp add: laneNames_def laneTotal_absent)
    with False assms(1) show ?thesis by (simp add: lanesAccount_def plain_property(2) [OF p])
  qed
  have lanes: "v_laneDurations (laneStep rnd pc p s) =
      AList.update p (Millis (laneTotal ?cs p + transferMs c)) ?L"
    by (simp add: c(3) old plain_property(1) [OF p])
  have "distinct (map fst (v_laneDurations (laneStep rnd pc p s)))"
    using assms(1) by (simp add: lanes lanesAccount_def distinct_update)
  moreover have "map_of (v_laneDurations (laneStep rnd pc p s)) =
      (\<lambda>q. if q \<in> laneNames pc (?cs @ [c])
           then Some (Millis (laneTotal (?cs @ [c]) q)) else None)"
  proof
    fix q
    show "map_of (v_laneDurations (laneStep rnd pc p s)) q =
      (if q \<in> laneNames pc (?cs @ [c]) then Some (Millis (laneTotal (?cs @ [c]) q)) else None)"
      using assms(1) c(2)
      by (auto simp: lanes update_conv' lanesAccount_def laneNames_def laneTotal_def)
  qed
  ultimately show ?thesis unfolding lanesAccount_def c(1) by blast
qed

lemma lanesAccount_final:
  assumes "plainLanes sc"
  shows "lanesAccount (priorityConfig sc) (finalVars sc rnd)"
  unfolding finalVars_def
proof (rule fold_bucketStep_invariant_on [where I = "lanesAccount (priorityConfig sc)"])
  show "lanesAccount (priorityConfig sc) (initialVars (priorityConfig sc))"
    using assms by (intro lanesAccount_initial) (auto simp: plainLanes_def)
next
  fix p s
  assume "p \<in> fst ` set (buckets sc)" and "lanesAccount (priorityConfig sc) s"
  with assms show "lanesAccount (priorityConfig sc) (laneStep rnd (priorityConfig sc) p s)"
    by (intro lanesAccount_laneStep) (auto simp: plainLanes_def)
qed

lemma Math_max_Millis: "xs \<noteq> [] \<Longrightarrow> Math_max (map Millis xs) = Num (Max (set xs))"
proof (induction xs)
  case Nil
  then show ?case by simp
next
  case (Cons x xs)
  show ?case
  proof (cases "xs = []")
    case True
    then show ?thesis by simp
  next
    case False
    with Cons.IH show ?thesis by (simp add: Max_insert)
  qed
qed

lemma Math_max_empty: "Math_max xs = NegInfinity \<longleftrightarrow> xs = []"
  by (induction xs rule: Math_max.induct) (simp_all split: number.splits)

lemma lane_values:
  assumes "distinct (map fst al)"
    and "map_of al = (\<lambda>p. if p \<in> K then Some (Millis (f p)) else None)"
  shows "map snd al = map Millis (map millis (map snd al))"
    and "set (map millis (map snd al)) = f ` K"
proof -
  have "set (map snd al) = ran (map_of al)"
    using assms(1) by (simp add: ran_distinct)
  also have "\<dots> = (\<lambda>p. Millis (f p)) ` K"
    unfolding assms(2) by (auto simp: ran_def)
  finally have vals: "set (map snd al) = (\<lambda>p. Millis (f p)) ` K" .
  then have "\<forall>v \<in> set (map snd al). Millis (millis v) = v" by auto
  then show "map snd al = map Millis (map millis (map snd al))"
    by (simp add: map_idI)
  have "set (map millis (map snd al)) = millis ` set (map snd al)" by (simp add: image_image)
  also have "\<dots> = f ` K" unfolding vals by (simp add: image_image)
  finally show "set (map millis (map snd al)) = f ` K" .
qed

text \<open>
  In a scenario of plain lanes with at least one lane the duration is the largest lane
  total over 1000; it is \<open>-Infinity\<close> exactly when there is no configured priority and
  no chunk.
\<close>

lemma duration_max_lane:
  assumes plain: "plainLanes sc"
    and lanes: "laneNames (priorityConfig sc) (chunks (generateRun sc rnd)) \<noteq> {}"
  shows "duration (generateRun sc rnd) =
     Num (Max (laneTotal (chunks (generateRun sc rnd))
                 ` laneNames (priorityConfig sc) (chunks (generateRun sc rnd))) / 1000)"
proof -
  let ?s = "finalVars sc rnd"
  let ?K = "laneNames (priorityConfig sc) (v_chunks ?s)"
  let ?ds = "map millis (map snd (v_laneDurations ?s))"
  have acc: "lanesAccount (priorityConfig sc) ?s" using plain by (rule lanesAccount_final)
  then have vals: "map snd (v_laneDurations ?s) = map Millis ?ds"
    "set ?ds = laneTotal (v_chunks ?s) ` ?K"
    unfolding lanesAccount_def by (intro lane_values; simp)+
  from lanes have "?K \<noteq> {}" by (simp add: generateRun_fields)
  with vals(2) have "?ds \<noteq> []" by auto
  then have "Math_max (map Millis ?ds) = Num (Max (set ?ds))"
    by (rule Math_max_Millis)
  then have "Math_max (map Millis ?ds) = Num (Max (laneTotal (v_chunks ?s) ` ?K))"
    unfolding vals(2) .
  then have "Math_max (map snd (v_laneDurations ?s)) = Num (Max (laneTotal (v_chunks ?s) ` ?K))"
    by (subst vals(1))
  then show ?thesis by (simp add: generateRun_fields)
qed

lemma duration_minus_infinity:
  assumes plain: "plainLanes sc"
  shows "duration (generateRun sc rnd) = NegInfinity \<longleftrightarrow>
     priorityConfig sc = [] \<and> chunks (generateRun sc rnd) = []"
proof -
  let ?s = "finalVars sc rnd"
  let ?K = "laneNames (priorityConfig sc) (v_chunks ?s)"
  let ?ds = "map millis (map snd (v_laneDurations ?s))"
  have acc: "lanesAccount (priorityConfig sc) ?s" using plain by (rule lanesAccount_final)
  then have vals: "set ?ds = laneTotal (v_chunks ?s) ` ?K"
    unfolding lanesAccount_def by (intro lane_values(2)) simp_all
  have "duration (generateRun sc rnd) = NegInfinity \<longleftrightarrow> map snd (v_laneDurations ?s) = []"
    by (cases "Math_max (map snd (v_laneDurations ?s))")
       (simp_all add: generateRun_fields Math_max_empty [symmetric])
  also have "\<dots> \<longleftrightarrow> ?ds = []" by simp
  also have "\<dots> \<longleftrightarrow> ?K = {}" using vals by (metis image_is_empty set_empty)
  also have "\<dots> \<longleftrightarrow> priorityConfig sc = [] \<and> chunks (generateRun sc rnd) = []"
    by (simp add: laneNames_def generateRun_fields)
  finally show ?thesis .
qed

text \<open>
  With, in addition, draws that are not negative and configured base latencies that are
  not negative, the duration is a number that is not negative.
\<close>

lemma duration_nonneg:
  assumes plain: "plainLanes sc"
    and lanes: "laneNames (priorityConfig sc) (chunks (generateRun sc rnd)) \<noteq> {}"
    and draws: "\<forall>n. 0 \<le> rnd n"
    and bases: "\<forall>e \<in> set (priorityConfig sc). \<forall>b. baseMs (snd e) = Some b \<longrightarrow> 0 \<le> b"
  shows "\<exists>d. duration (generateRun sc rnd) = Num d \<and> 0 \<le> d"
proof -
  let ?cs = "chunks (generateRun sc rnd)"
  let ?K = "laneNames (priorityConfig sc) ?cs"
  have base: "0 \<le> laneBaseMs (laneConfig (priorityConfig sc) p)" for p
    using bases by (rule laneBaseMs_cases) simp
  have ms: "0 \<le> transferMs c" if "c \<in> set ?cs" for c
  proof -
    from that obtain k where k: "k < length ?cs" and c: "c = ?cs ! k"
      by (auto simp: in_set_conv_nth)
    from chunk_transferMs_ge_base [OF k] draws base [of "priority (?cs ! k)"]
    have "laneBaseMs (laneConfig (priorityConfig sc) (priority (?cs ! k))) \<le> transferMs (?cs ! k)"
      by simp
    with base [of "priority (?cs ! k)"] c show ?thesis by simp
  qed
  have total: "0 \<le> laneTotal ?cs p" for p
    unfolding laneTotal_def by (rule sum_list_nonneg) (auto simp: ms)
  have fin: "finite (laneTotal ?cs ` ?K)" by (simp add: laneNames_def)
  from lanes obtain p where p: "p \<in> ?K" by auto
  have "laneTotal ?cs p \<le> Max (laneTotal ?cs ` ?K)"
    using fin p by (intro Max_ge) auto
  with total [of p] have "0 \<le> Max (laneTotal ?cs ` ?K) / 1000" by simp
  with duration_max_lane [OF plain lanes] show ?thesis by blast
qed

section \<open>The outcome sampler\<close>

text \<open>
  C4. The sampler applies the cumulative bands of the priority in the order recovered,
  retransmit, dropped, delivered, the first matching band winning: the upper ends of the
  first three bands are 0.08, 0.11, 0.11 for P0 (the dropped band is empty), 0.10, 0.16,
  0.18 for P1 and 0.12, 0.22, 0.28 for every other priority. In particular P0 at 0.05 is
  recovered, P0 at 0.50 is delivered, P1 at 0.17 is dropped and P2 at 0.25 is dropped.
\<close>

theorem weightedStatus_bands:
  "weightedStatus p r =
     (let (a, b, c) = (if p = ''P0'' then (0.08, 0.11, 0.11)
                       else if p = ''P1'' then (0.10, 0.16, 0.18)
                       else (0.12, 0.22, 0.28))
      in if r < a then Recovered
         else if r < b then Retransmit
         else if r < c then Dropped
         else Delivered)
   \<and> weightedStatus ''P0'' 0.05 = Recovered
   \<and> weightedStatus ''P0'' 0.50 = Delivered
   \<and> weightedStatus ''P1'' 0.17 = Dropped
   \<and> weightedStatus ''P2'' 0.25 = Dropped"
  by (simp add: weightedStatus_def)

text \<open>
  C1. Whatever the draw, the sampler never answers dropped for P0; hence no chunk of
  priority P0 of any run is dropped.
\<close>

theorem P0_never_dropped:
  "weightedStatus ''P0'' r \<noteq> Dropped
   \<and> (\<forall>c \<in> set (chunks (generateRun sc rnd)). priority c = ''P0'' \<longrightarrow> status c \<noteq> Dropped)"
proof (intro conjI ballI impI)
  show "weightedStatus ''P0'' r \<noteq> Dropped" by (rule weightedStatus_P0)
next
  fix c assume "c \<in> set (chunks (generateRun sc rnd))" and p: "priority c = ''P0''"
  then obtain k where k: "k < length (chunks (generateRun sc rnd))"
    and c: "c = chunks (generateRun sc rnd) ! k"
    by (auto simp: in_set_conv_nth)
  from run_chunk_at(2) [OF k] c p
  have "status c = weightedStatus ''P0'' (rnd (4 * k))" by simp
  then show "status c \<noteq> Dropped" by (simp add: weightedStatus_P0)
qed

theorem P0_never_dropped_witness:
  "(let cs = chunks (generateRun literalScenario (literalDraws 0))
    in hd cs \<in> set cs \<and> priority (hd cs) = ''P0'' \<and> status (hd cs) \<noteq> Dropped)"
  using P0_never_dropped [of 0 literalScenario "literalDraws 0"]
  by (simp add: literal_run)

section \<open>Counters, ids and loss rate\<close>

text \<open>
  C5. In every run the four outcome counters add up to \<open>total\<close>, \<open>total\<close> is the
  length of the chunk sequence, and each counter is the number of chunks carrying that
  outcome (a chunk carries exactly one).
\<close>

theorem stats_sum_total:
  "delivered (stats (generateRun sc rnd)) + recovered (stats (generateRun sc rnd))
     + retransmit (stats (generateRun sc rnd)) + dropped (stats (generateRun sc rnd))
     = total (stats (generateRun sc rnd))
   \<and> total (stats (generateRun sc rnd)) = length (chunks (generateRun sc rnd))
   \<and> delivered (stats (generateRun sc rnd)) = tally Delivered (chunks (generateRun sc rnd))
   \<and> recovered (stats (generateRun sc rnd)) = tally Recovered (chunks (generateRun sc rnd))
   \<and> retransmit (stats (generateRun sc rnd)) = tally Retransmit (chunks (generateRun sc rnd))
   \<and> dropped (stats (generateRun sc rnd)) = tally Dropped (chunks (generateRun sc rnd))"
  using counted_final [of sc rnd] tally_sum [of "v_chunks (finalVars sc rnd)"]
  by (simp add: generateRun_fields counted_def)

text \<open>
  C6. The ids of a run are 1, 2, ..., n in the order of emission, so they are unique and
  strictly increasing without gaps; the chunks come bucket by bucket, in the order of the
  buckets, each bucket contributing its count of chunks of its priority.
\<close>

theorem chunk_ids_sequential:
  "map chunk_id (chunks (generateRun sc rnd)) = [1..<Suc (length (chunks (generateRun sc rnd)))]
   \<and> distinct (map chunk_id (chunks (generateRun sc rnd)))
   \<and> sorted_wrt (<) (map chunk_id (chunks (generateRun sc rnd)))
   \<and> map priority (chunks (generateRun sc rnd)) = lanesOf (buckets sc)"
proof -
  have ids: "map chunk_id (chunks (generateRun sc rnd)) = [1..<Suc (length (chunks (generateRun sc rnd)))]"
    using counted_final [of sc rnd] by (simp add: generateRun_fields counted_def)
  have "map priority (chunks (generateRun sc rnd)) = lanesOf (buckets sc)"
    by (simp add: generateRun_fields finalVars_def lanes_fold initialVars_def)
  moreover have "distinct (map chunk_id (chunks (generateRun sc rnd)))"
    by (subst ids) (rule distinct_upt)
  moreover have "sorted_wrt (<) (map chunk_id (chunks (generateRun sc rnd)))"
    by (subst ids) (rule sorted_wrt_upt)
  ultimately show ?thesis using ids by simp
qed

text \<open>
  C7. The loss rate is the share of recovered, retransmitted and dropped chunks when the
  run has chunks, and 0 when it has none; it always lies between 0 and 1.
\<close>

theorem lossRate_value:
  "lossRate (generateRun sc rnd) =
     (if total (stats (generateRun sc rnd)) > 0
      then real (recovered (stats (generateRun sc rnd)) + retransmit (stats (generateRun sc rnd))
                 + dropped (stats (generateRun sc rnd)))
           / real (total (stats (generateRun sc rnd)))
      else 0)
   \<and> 0 \<le> lossRate (generateRun sc rnd) \<and> lossRate (generateRun sc rnd) \<le> 1"
proof -
  let ?s = "finalVars sc rnd"
  have "recovered (v_stats ?s) + retransmit (v_stats ?s) + dropped (v_stats ?s) \<le> length (v_chunks ?s)"
    using counted_final [of sc rnd] tally_sum [of "v_chunks ?s"] by (simp add: counted_def)
  then show ?thesis
    by (simp add: generateRun_def Let_def finalVars_def [symmetric] divide_le_eq)
qed

section \<open>The duration of a run\<close>

text \<open>
  C3. For the run without lanes (no configured priority, no bucket) the code computes
  \<open>Math.max()\<close> of no arguments: the duration is \<open>-Infinity\<close>, not 0, although the run
  has no chunk and its loss rate is the guarded 0.
\<close>

theorem duration_no_lanes:
  "chunks (generateRun emptyScenario rnd) = []
   \<and> total (stats (generateRun emptyScenario rnd)) = 0
   \<and> lossRate (generateRun emptyScenario rnd) = 0
   \<and> duration (generateRun emptyScenario rnd) = NegInfinity
   \<and> duration (generateRun emptyScenario rnd) \<noteq> Num 0"
  by (simp add: generateRun_def emptyScenario_def initialVars_def)

section \<open>Lanes, paths and latencies\<close>




text \<open>
  C8, as the claim states it, fails: with the paths "A" and "" and the primary "A", the
  first entry other than the primary is the empty string, which \<open>||\<close> takes for
  missing, so the code falls back to the primary "A".
\<close>

theorem alternatePath_counterexample:
  "alternatePath [''A'', ''''] (Some ''A'') = Some ''A''
   \<and> chooseFallback [''A'', ''''] ''A'' = ''''
   \<and> alternatePath [''A'', ''''] (Some ''A'') \<noteq> Some (chooseFallback [''A'', ''''] ''A'')"
  by (simp add: alternatePath_def chooseFallback_def)

text \<open>
  C8, amended. The fallback path is the first entry of the list that is not the primary,
  provided that entry is not the empty string, and the primary itself when every entry
  is the primary. Hence, for draws in [0,1), a retransmit chunk of a lane with the single
  path \<open>p\<close> is displayed with the path \<open>p\<close>, an arrow, and \<open>p\<close> again.
\<close>

theorem alternatePath_first_other:
  "(find (\<lambda>entry. entry \<noteq> primary) opts \<noteq> Some ''''
      \<longrightarrow> alternatePath opts (Some primary) = Some (chooseFallback opts primary))
   \<and> ((\<forall>entry \<in> set opts. entry = primary) \<longrightarrow> alternatePath opts (Some primary) = Some primary)
   \<and> ((\<forall>n. 0 \<le> rnd n \<and> rnd n < 1)
        \<and> k < length (chunks (generateRun sc rnd))
        \<and> status (chunks (generateRun sc rnd) ! k) = Retransmit
        \<and> lanePathOptions (laneConfig (priorityConfig sc) (priority (chunks (generateRun sc rnd) ! k))) = [p]
      \<longrightarrow> path (chunks (generateRun sc rnd) ! k) = Some (p @ '' '' @ arrow @ '' '' @ p))"
proof (intro conjI impI)
  have eq: "(\<lambda>option. Some option \<noteq> Some primary) = (\<lambda>entry. entry \<noteq> primary)"
    by auto
  show "alternatePath opts (Some primary) = Some (chooseFallback opts primary)"
    if "find (\<lambda>entry. entry \<noteq> primary) opts \<noteq> Some ''''"
    using that by (cases "find (\<lambda>entry. entry \<noteq> primary) opts")
      (simp_all add: alternatePath_def chooseFallback_def eq)
  show "alternatePath opts (Some primary) = Some primary"
    if "\<forall>entry \<in> set opts. entry = primary"
  proof -
    have "find (\<lambda>entry. entry \<noteq> primary) opts = None"
      using that by (simp add: find_None_iff)
    then show ?thesis by (simp add: alternatePath_def eq)
  qed
next
  assume h: "(\<forall>n. 0 \<le> rnd n \<and> rnd n < 1)
        \<and> k < length (chunks (generateRun sc rnd))
        \<and> status (chunks (generateRun sc rnd) ! k) = Retransmit
        \<and> lanePathOptions (laneConfig (priorityConfig sc) (priority (chunks (generateRun sc rnd) ! k))) = [p]"
  then have k: "k < length (chunks (generateRun sc rnd))" by simp
  from h have "randomFrom [p] (rnd (4 * k + 1)) = Some p"
    by (simp add: randomFrom_single)
  with run_chunk_at(4) [OF k] h
  show "path (chunks (generateRun sc rnd) ! k) = Some (p @ '' '' @ arrow @ '' '' @ p)"
    by (simp add: alternatePath_single)
qed

theorem alternatePath_first_other_witness:
  "find (\<lambda>entry. entry \<noteq> ''A'') [''A'', ''B''] \<noteq> Some ''''
   \<and> alternatePath [''A'', ''B''] (Some ''A'') = Some ''B''
   \<and> alternatePath [''A'', ''A''] (Some ''A'') = Some ''A''
   \<and> (\<forall>n. 0 \<le> retransmitDraws n \<and> retransmitDraws n < 1)
   \<and> 0 < length (chunks (generateRun singlePathScenario retransmitDraws))
   \<and> status (chunks (generateRun singlePathScenario retransmitDraws) ! 0) = Retransmit
   \<and> lanePathOptions (laneConfig (priorityConfig singlePathScenario) ''P0'') = [''Uplink'']
   \<and> path (chunks (generateRun singlePathScenario retransmitDraws) ! 0)
       = Some (''Uplink'' @ '' '' @ arrow @ '' '' @ ''Uplink'')"
proof -
  have opts: "lanePathOptions (laneConfig (priorityConfig singlePathScenario) ''P0'') = [''Uplink'']"
    by (simp add: singlePathScenario_def laneConfig_def lanePathOptions_def getProperty_def)
  show ?thesis
    using alternatePath_first_other
        [where primary = "''A''" and opts = "[''A'', ''B'']" and rnd = retransmitDraws
           and k = 0 and sc = singlePathScenario and p = "''Uplink''"]
      alternatePath_first_other [where primary = "''A''" and opts = "[''A'', ''A'']"]
    by (simp add: singlePath_run chooseFallback_def opts) (simp add: retransmitDraws_def)
qed

text \<open>
  C9, as the claim states it, fails: with the configured base latency -10 and the
  jitter draw one half, the delivered chunk's transfer time is the base latency plus
  -4.5, which is no value of the interval from 0 to -9 that the claim names.
\<close>

theorem jitter_outside_range:
  "status (chunks (generateRun negativeBaseScenario halfDraws) ! 0) = Delivered
   \<and> laneBaseMs (laneConfig (priorityConfig negativeBaseScenario) ''P0'') = - 10
   \<and> 0 \<le> halfDraws 2 \<and> halfDraws 2 < 1
   \<and> transferMs (chunks (generateRun negativeBaseScenario halfDraws) ! 0)
       - laneBaseMs (laneConfig (priorityConfig negativeBaseScenario) ''P0'') = - 4.5
   \<and> \<not> (0 \<le> transferMs (chunks (generateRun negativeBaseScenario halfDraws) ! 0)
              - laneBaseMs (laneConfig (priorityConfig negativeBaseScenario) ''P0'')
          \<and> transferMs (chunks (generateRun negativeBaseScenario halfDraws) ! 0)
              - laneBaseMs (laneConfig (priorityConfig negativeBaseScenario) ''P0'')
            < laneBaseMs (laneConfig (priorityConfig negativeBaseScenario) ''P0'') * 0.9)"
  by (simp add: negativeBase_run)
     (simp add: negativeBaseScenario_def laneConfig_def laneBaseMs_def getProperty_def
        halfDraws_def)

text \<open>
  C9, amended. The transfer time of the \<open>k\<close>-th chunk is the base latency of its lane,
  plus its jitter draw times that latency times 0.9, plus 0.6 times the base latency for
  a retransmit and the base latency for a dropped chunk, and nothing for delivered and
  recovered; for a positive base latency and a draw in [0,1) the jitter term is a value
  in [0, base * 0.9). The literal scenario yields one chunk with id 1, priority P0,
  outcome delivered, path "A" and transfer time 48.
\<close>

theorem effective_latency:
  "(k < length (chunks (generateRun sc rnd)) \<longrightarrow>
      (let c = chunks (generateRun sc rnd) ! k;
           base = laneBaseMs (laneConfig (priorityConfig sc) (priority c));
           jitter = rnd (4 * k + 2) * base * 0.9
       in transferMs c = base + jitter
            + (case status c of Delivered \<Rightarrow> 0 | Recovered \<Rightarrow> 0
               | Retransmit \<Rightarrow> base * 0.6 | Dropped \<Rightarrow> base)
          \<and> (0 < base \<and> 0 \<le> rnd (4 * k + 2) \<and> rnd (4 * k + 2) < 1
               \<longrightarrow> 0 \<le> jitter \<and> jitter < base * 0.9)))
   \<and> map (\<lambda>c. (chunk_id c, priority c, status c, path c, transferMs c))
        (chunks (generateRun literalScenario (literalDraws h)))
      = [(1, ''P0'', Delivered, Some ''A'', 48)]"
proof (intro conjI impI)
  assume k: "k < length (chunks (generateRun sc rnd))"
  show "let c = chunks (generateRun sc rnd) ! k;
           base = laneBaseMs (laneConfig (priorityConfig sc) (priority c));
           jitter = rnd (4 * k + 2) * base * 0.9
       in transferMs c = base + jitter
            + (case status c of Delivered \<Rightarrow> 0 | Recovered \<Rightarrow> 0
               | Retransmit \<Rightarrow> base * 0.6 | Dropped \<Rightarrow> base)
          \<and> (0 < base \<and> 0 \<le> rnd (4 * k + 2) \<and> rnd (4 * k + 2) < 1
               \<longrightarrow> 0 \<le> jitter \<and> jitter < base * 0.9)"
    using run_chunk_at(3) [OF k]
    by (cases "status (chunks (generateRun sc rnd) ! k)") (simp_all add: Let_def)
next
  show "map (\<lambda>c. (chunk_id c, priority c, status c, path c, transferMs c))
        (chunks (generateRun literalScenario (literalDraws h)))
      = [(1, ''P0'', Delivered, Some ''A'', 48)]"
    by (simp add: literal_run)
qed

theorem effective_latency_witness:
  "0 < length (chunks (generateRun literalScenario (literalDraws 0)))
   \<and> 0 < laneBaseMs (laneConfig (priorityConfig literalScenario) ''P0'')
   \<and> 0 \<le> literalDraws 0 2 \<and> literalDraws 0 2 < 1
   \<and> transferMs (chunks (generateRun literalScenario (literalDraws 0)) ! 0) = 48 + 0 + 0"
  using effective_latency [where k = 0 and sc = literalScenario and rnd = "literalDraws 0"]
  by (simp add: literal_run) (simp add: literalScenario_def laneConfig_def laneBaseMs_def literalDraws_def getProperty_def)

text \<open>
  C10, as the claim states it, fails: with the configured base latency -10 and the
  jitter draw one half the transfer time is -14.5, below the base latency.
\<close>

theorem transferMs_below_base:
  "priority (chunks (generateRun negativeBaseScenario halfDraws) ! 0) = ''P0''
   \<and> laneBaseMs (laneConfig (priorityConfig negativeBaseScenario) ''P0'') = - 10
   \<and> transferMs (chunks (generateRun negativeBaseScenario halfDraws) ! 0) = - 14.5
   \<and> \<not> laneBaseMs (laneConfig (priorityConfig negativeBaseScenario) ''P0'')
         \<le> transferMs (chunks (generateRun negativeBaseScenario halfDraws) ! 0)"
  by (simp add: negativeBase_run) (simp add: negativeBaseScenario_def laneConfig_def laneBaseMs_def getProperty_def)

text \<open>
  C10, amended. For draws that are not negative, the transfer time of a chunk whose
  lane has a base latency of at least 0 is at least that base latency; and when every
  configured base latency is positive, every transfer time is positive.
\<close>

theorem transferMs_at_least_base:
  "(\<forall>n. 0 \<le> rnd n) \<and> k < length (chunks (generateRun sc rnd)) \<longrightarrow>
     (let c = chunks (generateRun sc rnd) ! k;
          base = laneBaseMs (laneConfig (priorityConfig sc) (priority c))
      in (0 \<le> base \<longrightarrow> base \<le> transferMs c)
         \<and> ((\<forall>e \<in> set (priorityConfig sc). \<forall>b. baseMs (snd e) = Some b \<longrightarrow> 0 < b)
             \<longrightarrow> 0 < transferMs c))"
proof (intro impI)
  assume h: "(\<forall>n. 0 \<le> rnd n) \<and> k < length (chunks (generateRun sc rnd))"
  then have k: "k < length (chunks (generateRun sc rnd))" and r: "0 \<le> rnd (4 * k + 2)"
    by simp_all
  define c where "c = chunks (generateRun sc rnd) ! k"
  define base where "base = laneBaseMs (laneConfig (priorityConfig sc) (priority c))"
  have ge: "base \<le> transferMs c" if "0 \<le> base"
    using chunk_transferMs_ge_base [OF k r] that by (simp add: c_def base_def)
  have pos: "0 < transferMs c"
    if "\<forall>e \<in> set (priorityConfig sc). \<forall>b. baseMs (snd e) = Some b \<longrightarrow> 0 < b"
  proof -
    have "0 < base" unfolding base_def using that by (rule laneBaseMs_cases) simp
    with ge show ?thesis by force
  qed
  from ge pos show "let c = chunks (generateRun sc rnd) ! k;
          base = laneBaseMs (laneConfig (priorityConfig sc) (priority c))
      in (0 \<le> base \<longrightarrow> base \<le> transferMs c)
         \<and> ((\<forall>e \<in> set (priorityConfig sc). \<forall>b. baseMs (snd e) = Some b \<longrightarrow> 0 < b)
             \<longrightarrow> 0 < transferMs c)"
    by (simp add: c_def base_def Let_def)
qed

theorem transferMs_at_least_base_witness:
  "(\<forall>n. 0 \<le> literalDraws 0 n)
   \<and> 0 < length (chunks (generateRun literalScenario (literalDraws 0)))
   \<and> 0 \<le> laneBaseMs (laneConfig (priorityConfig literalScenario) ''P0'')
   \<and> list_all (\<lambda>e. baseMs (snd e) = Some 48) (priorityConfig literalScenario)
   \<and> laneBaseMs (laneConfig (priorityConfig literalScenario) ''P0'')
        \<le> transferMs (chunks (generateRun literalScenario (literalDraws 0)) ! 0)
   \<and> 0 < transferMs (chunks (generateRun literalScenario (literalDraws 0)) ! 0)"
proof -
  have base: "laneBaseMs (laneConfig (priorityConfig literalScenario) ''P0'') = 48"
    and cfg: "list_all (\<lambda>e. baseMs (snd e) = Some 48) (priorityConfig literalScenario)"
    by (simp_all add: literalScenario_def laneConfig_def laneBaseMs_def getProperty_def)
  have draws: "\<forall>n. 0 \<le> literalDraws 0 n" by (simp add: literalDraws_def)
  show ?thesis
    using transferMs_at_least_base [where k = 0 and sc = literalScenario and rnd = "literalDraws 0"]
      base cfg draws
    by (simp add: literal_run)
qed

end
